theory Spec2Isabelle
  imports Main
begin

section \<open>Values and errors of the scripts\<close>

text \<open>
  \<^verbatim>\<open>update.py\<close> works on whatever \<^verbatim>\<open>json.load\<close> returns, so the model keeps the
  dynamic typing: one datatype for every parsed JSON value, and every lookup that Python
  can refuse is a branch that returns the exception. A JSON object is an association
  list in key order (a Python \<^verbatim>\<open>dict\<close> keeps insertion order and has each key once).
  Numbers with a fraction or an exponent (Python floats) are not part of the datatype.
\<close>

datatype json =
    JNull
  | JBool bool
  | JInt int
  | JStr string
  | JArr "json list"
  | JObj "(string \<times> json) list"

datatype error =
    URLError
  | JSONDecodeError
  | FileNotFoundError
  | KeyError
  | IndexError
  | TypeError
  | ValueError
  | AttributeError

text \<open>Sequencing of steps that may raise: the first exception ends the computation.\<close>

definition bind :: "error + 'a \<Rightarrow> ('a \<Rightarrow> error + 'b) \<Rightarrow> error + 'b" where
  "bind m f = (case m of Inl e \<Rightarrow> Inl e | Inr x \<Rightarrow> f x)"

text \<open>\<^verbatim>\<open>x["k"]\<close>: only a dict accepts a string subscript.\<close>

fun getitem_key :: "json \<Rightarrow> string \<Rightarrow> error + json" where
  "getitem_key (JObj kvs) k = (case map_of kvs k of None \<Rightarrow> Inl KeyError | Some v \<Rightarrow> Inr v)"
| "getitem_key _ k = Inl TypeError"

text \<open>
  \<^verbatim>\<open>x[i]\<close> for an index \<open>i \<ge> 0\<close>: a list gives its element, a string its one-character
  substring, both raise IndexError out of range; a dict parsed from JSON has no integer
  key; the other values are not subscriptable.
\<close>

fun getitem_idx :: "json \<Rightarrow> nat \<Rightarrow> error + json" where
  "getitem_idx (JArr xs) i = (if i < length xs then Inr (xs ! i) else Inl IndexError)"
| "getitem_idx (JStr s) i = (if i < length s then Inr (JStr [s ! i]) else Inl IndexError)"
| "getitem_idx (JObj kvs) i = Inl KeyError"
| "getitem_idx _ i = Inl TypeError"

subsection \<open>Python's \<^verbatim>\<open>int()\<close>\<close>

text \<open>
  On a string, \<^verbatim>\<open>int\<close> strips white space at both ends and reads an optional sign and
  decimal digits, where single underscores may separate digits; anything else raises
  ValueError. The white space it strips is tab, line feed, vertical tab, form feed,
  carriage return, space, and of the characters above ASCII the next-line and no-break
  space characters; the separators U+001C to U+001F are not stripped. (The interpreter's
  configurable limit on the number of digits is not modelled.)
\<close>

definition is_space :: "char \<Rightarrow> bool" where
  "is_space c = (let n = (of_char c :: nat)
                 in (9 \<le> n \<and> n \<le> 13) \<or> n = 32 \<or> n = 133 \<or> n = 160)"

definition digit_of :: "char \<Rightarrow> nat option" where
  "digit_of c = (let n = (of_char c :: nat)
                 in if 48 \<le> n \<and> n \<le> 57 then Some (n - 48) else None)"

fun digits_val :: "nat \<Rightarrow> string \<Rightarrow> nat option" where
  "digits_val acc [] = Some acc"
| "digits_val acc [c] =
     (case digit_of c of None \<Rightarrow> None | Some v \<Rightarrow> Some (10 * acc + v))"
| "digits_val acc (c # d # ds) =
     (if c = CHR ''_''
      then (case digit_of d of None \<Rightarrow> None | Some v \<Rightarrow> digits_val (10 * acc + v) ds)
      else (case digit_of c of None \<Rightarrow> None | Some v \<Rightarrow> digits_val (10 * acc + v) (d # ds)))"

definition unsigned_val :: "string \<Rightarrow> nat option" where
  "unsigned_val s =
     (case s of [] \<Rightarrow> None
      | c # cs \<Rightarrow> (case digit_of c of None \<Rightarrow> None | Some v \<Rightarrow> digits_val v cs))"

definition strip :: "string \<Rightarrow> string" where
  "strip s = rev (dropWhile is_space (rev (dropWhile is_space s)))"

definition int_of_str :: "string \<Rightarrow> int option" where
  "int_of_str s =
     (case strip s of
        [] \<Rightarrow> None
      | c # cs \<Rightarrow>
          if c = CHR ''-'' then map_option (\<lambda>n. - int n) (unsigned_val cs)
          else if c = CHR ''+'' then map_option int (unsigned_val cs)
          else map_option int (unsigned_val (c # cs)))"

fun py_int :: "json \<Rightarrow> error + int" where
  "py_int (JInt n) = Inr n"
| "py_int (JBool b) = Inr (if b then 1 else 0)"
| "py_int (JStr s) = (case int_of_str s of None \<Rightarrow> Inl ValueError | Some n \<Rightarrow> Inr n)"
| "py_int _ = Inl TypeError"

section \<open>The world outside the script\<close>

text \<open>
  The file \<^verbatim>\<open>out.json\<close> (absent, or its content) and what has been printed. A printed
  line \<^verbatim>\<open>inserted new tiem {newtime}\<close> is recorded by the value formatted into it.
\<close>

datatype line = InsertedNewTime json

record world =
  out_json :: "string option"
  stdout :: "line list"

section \<open>\<^verbatim>\<open>update.py\<close>\<close>

definition numgrabbed :: nat where
  "numgrabbed = 2"

text \<open>
  \<^verbatim>\<open>olddata["list"].insert\<close>: the attribute exists on a list only.
\<close>

fun getattr_insert :: "json \<Rightarrow> error + json list" where
  "getattr_insert (JArr xs) = Inr xs"
| "getattr_insert _ = Inl AttributeError"

text \<open>
  The list is changed in place, so the dict \<^verbatim>\<open>olddata\<close> that holds it shows the new
  list under its key, at the key's old position.
\<close>

fun with_list :: "json \<Rightarrow> json \<Rightarrow> json" where
  "with_list (JObj kvs) l = JObj (map (\<lambda>(k, v). if k = ''list'' then (k, l) else (k, v)) kvs)"
| "with_list j l = j"

text \<open>
  Lines 11 to 19, one pass of the loop body before the write: the new value of
  \<^verbatim>\<open>olddata\<close> and the lines printed, or the exception raised. Every exception of
  these lines is raised before the list is changed and before anything is printed.
\<close>

definition merge_image :: "json \<Rightarrow> nat \<Rightarrow> json \<Rightarrow> error + json \<times> line list" where
  "merge_image newdata i olddata =
     bind (getitem_key newdata ''images'') (\<lambda>images.
     bind (getitem_idx images i) (\<lambda>img.
     bind (getitem_key img ''imageTimestamp'') (\<lambda>newtime.
     bind (getitem_key olddata ''list'') (\<lambda>l.
     bind (getitem_idx l 0) (\<lambda>l0.
     bind (getitem_idx l0 0) (\<lambda>recent.
     bind (py_int recent) (\<lambda>r.
     bind (py_int newtime) (\<lambda>n.
       if r < n then
         bind (getitem_key olddata ''list'') (\<lambda>lst.
         bind (getattr_insert lst) (\<lambda>xs.
         bind (getitem_key img ''imageTimestamp'') (\<lambda>ts.
         bind (getitem_key img ''imageUrl'') (\<lambda>url.
           Inr (with_list olddata (JArr (JArr [ts, url] # xs)),
                [InsertedNewTime newtime])))))
       else Inr (olddata, [])))))))))"

text \<open>
  The loop over \<^verbatim>\<open>range(numgrabbed - 1, -1, -1)\<close>, given as the list of its indices.
  Each pass ends with lines 22 to 24, which overwrite the file with
  \<^verbatim>\<open>json.dumps(olddata)\<close>. The result is the exception that ended the run or the final
  \<^verbatim>\<open>olddata\<close>, with the world as the run left it.
\<close>

fun merge_loop ::
  "(json \<Rightarrow> string) \<Rightarrow> json \<Rightarrow> nat list \<Rightarrow> json \<Rightarrow> world \<Rightarrow> (error + json) \<times> world" where
  "merge_loop dumps newdata [] olddata w = (Inr olddata, w)"
| "merge_loop dumps newdata (i # is) olddata w =
     (case merge_image newdata i olddata of
        Inl e \<Rightarrow> (Inl e, w)
      | Inr (olddata', printed) \<Rightarrow>
          merge_loop dumps newdata is olddata'
            (w\<lparr>stdout := stdout w @ printed, out_json := Some (dumps olddata')\<rparr>))"

definition range_down :: "nat \<Rightarrow> nat list" where
  "range_down n = rev [0..<n]"

text \<open>
  The whole script. \<open>loads\<close> and \<open>dumps\<close> stand for \<^verbatim>\<open>json.load\<close> and
  \<^verbatim>\<open>json.dumps\<close>; \<open>p\<close> is what \<^verbatim>\<open>urlopen\<close> gives, an exception or the body of the
  response. The request is made and parsed before the file is opened.
\<close>

definition update_py ::
  "(string \<Rightarrow> error + json) \<Rightarrow> (json \<Rightarrow> string) \<Rightarrow> error + string \<Rightarrow> world
     \<Rightarrow> (error + json) \<times> world" where
  "update_py loads dumps p w =
     (case bind p loads of
        Inl e \<Rightarrow> (Inl e, w)
      | Inr newdata \<Rightarrow>
          (case out_json w of
             None \<Rightarrow> (Inl FileNotFoundError, w)
           | Some content \<Rightarrow>
               (case loads content of
                  Inl e \<Rightarrow> (Inl e, w)
                | Inr olddata \<Rightarrow> merge_loop dumps newdata (range_down numgrabbed) olddata w)))"

section \<open>The variant with one write\<close>

text \<open>
  The design the specification proposes in place of lines 22 to 24: the same loop with no
  write inside it, and a single write of \<^verbatim>\<open>json.dumps(olddata)\<close> once the whole
  batch has been processed.
\<close>

fun merge_loop_nowrite ::
  "json \<Rightarrow> nat list \<Rightarrow> json \<Rightarrow> world \<Rightarrow> (error + json) \<times> world" where
  "merge_loop_nowrite newdata [] olddata w = (Inr olddata, w)"
| "merge_loop_nowrite newdata (i # is) olddata w =
     (case merge_image newdata i olddata of
        Inl e \<Rightarrow> (Inl e, w)
      | Inr (olddata', printed) \<Rightarrow>
          merge_loop_nowrite newdata is olddata' (w\<lparr>stdout := stdout w @ printed\<rparr>))"

definition update_single_write ::
  "(string \<Rightarrow> error + json) \<Rightarrow> (json \<Rightarrow> string) \<Rightarrow> error + string \<Rightarrow> world
     \<Rightarrow> (error + json) \<times> world" where
  "update_single_write loads dumps p w =
     (case bind p loads of
        Inl e \<Rightarrow> (Inl e, w)
      | Inr newdata \<Rightarrow>
          (case out_json w of
             None \<Rightarrow> (Inl FileNotFoundError, w)
           | Some content \<Rightarrow>
               (case loads content of
                  Inl e \<Rightarrow> (Inl e, w)
                | Inr olddata \<Rightarrow>
                    (case merge_loop_nowrite newdata (range_down numgrabbed) olddata w of
                       (Inl e, w') \<Rightarrow> (Inl e, w')
                     | (Inr olddata', w') \<Rightarrow>
                         (Inr olddata', w'\<lparr>out_json := Some (dumps olddata')\<rparr>)))))"

section \<open>What the claims observe\<close>

text \<open>
  The values the loop body reads: \<^verbatim>\<open>newtime\<close> (lines 11 and 12), \<^verbatim>\<open>recent\<close> (line 13),
  and the two integers compared on line 15.
\<close>

definition newtime_of :: "json \<Rightarrow> nat \<Rightarrow> error + json" where
  "newtime_of newdata i =
     bind (getitem_key newdata ''images'') (\<lambda>images.
     bind (getitem_idx images i) (\<lambda>img. getitem_key img ''imageTimestamp''))"

definition recent_of :: "json \<Rightarrow> error + json" where
  "recent_of olddata =
     bind (getitem_key olddata ''list'') (\<lambda>l.
     bind (getitem_idx l 0) (\<lambda>l0. getitem_idx l0 0))"

definition new_ts :: "json \<Rightarrow> nat \<Rightarrow> error + int" where
  "new_ts newdata i = bind (newtime_of newdata i) py_int"

definition head_ts :: "json \<Rightarrow> error + int" where
  "head_ts olddata = bind (recent_of olddata) py_int"

text \<open>The stored record \<^verbatim>\<open>[timestamp, url]\<close> that line 17 builds from image \<open>i\<close>.\<close>

definition record_of :: "json \<Rightarrow> nat \<Rightarrow> error + json" where
  "record_of newdata i =
     bind (getitem_key newdata ''images'') (\<lambda>images.
     bind (getitem_idx images i) (\<lambda>img.
     bind (getitem_key img ''imageTimestamp'') (\<lambda>ts.
     bind (getitem_key img ''imageUrl'') (\<lambda>url. Inr (JArr [ts, url])))))"

text \<open>The timestamp of a stored record, as line 15 reads it: \<^verbatim>\<open>int(x[0])\<close>.\<close>

definition record_ts :: "json \<Rightarrow> error + int" where
  "record_ts x = bind (getitem_idx x 0) py_int"

definition ts_gt :: "json \<Rightarrow> json \<Rightarrow> bool" where
  "ts_gt x y =
     (case record_ts x of
        Inl e \<Rightarrow> False
      | Inr a \<Rightarrow> (case record_ts y of Inl e \<Rightarrow> False | Inr b \<Rightarrow> b < a))"

text \<open>Every adjacent pair of the list has a strictly greater timestamp on the left.\<close>

fun strictly_descending :: "json list \<Rightarrow> bool" where
  "strictly_descending (x # y # zs) = (ts_gt x y \<and> strictly_descending (y # zs))"
| "strictly_descending _ = True"

text \<open>The timestamp of an image of the response, as line 15 reads it.\<close>

definition image_ts :: "json \<Rightarrow> error + int" where
  "image_ts img = bind (getitem_key img ''imageTimestamp'') py_int"

text \<open>
  The two shapes written out for a timestamp \<open>t\<close> and a url \<open>u\<close>: an image of the
  response (the remote service sends further fields, which the script never reads) and
  the state file's document for a list of records.
\<close>

definition image :: "int \<Rightarrow> string \<Rightarrow> json" where
  "image t u = JObj [(''imageTimestamp'', JInt t), (''imageUrl'', JStr u)]"

definition images :: "json list \<Rightarrow> json" where
  "images imgs = JObj [(''images'', JArr imgs)]"

definition rec :: "int \<Rightarrow> string \<Rightarrow> json" where
  "rec t u = JArr [JInt t, JStr u]"

definition state :: "json list \<Rightarrow> json" where
  "state xs = JObj [(''list'', JArr xs)]"

section \<open>\<^verbatim>\<open>json.dumps\<close> and a \<^verbatim>\<open>json.load\<close> for worked examples\<close>

text \<open>
  The theorems below hold for any \<open>loads\<close> and \<open>dumps\<close>. The worked examples use
  \<^verbatim>\<open>json.dumps\<close> with its default settings (separators \<^verbatim>\<open>", "\<close> and \<^verbatim>\<open>": "\<close>, every
  character outside printable ASCII escaped), and a \<^verbatim>\<open>json.load\<close> given by the finite
  table of the documents it is asked to read.
\<close>

function nat_str :: "nat \<Rightarrow> string" where
  "nat_str n =
     (if n < 10 then [char_of (48 + n)] else nat_str (n div 10) @ [char_of (48 + n mod 10)])"
  by pat_completeness auto
termination
  by (relation "measure id") auto

definition int_str :: "int \<Rightarrow> string" where
  "int_str n = (if n < 0 then CHR ''-'' # nat_str (nat (- n)) else nat_str (nat n))"

definition hex_digit :: "nat \<Rightarrow> char" where
  "hex_digit n = (if n < 10 then char_of (48 + n) else char_of (87 + n))"

definition escape_char :: "char \<Rightarrow> string" where
  "escape_char c =
     (let n = (of_char c :: nat) in
      if n = 34 then [CHR 0x5C, CHR 0x22]
      else if n = 92 then [CHR 0x5C, CHR 0x5C]
      else if n = 10 then [CHR 0x5C, CHR ''n'']
      else if n = 13 then [CHR 0x5C, CHR ''r'']
      else if n = 9 then [CHR 0x5C, CHR ''t'']
      else if n = 8 then [CHR 0x5C, CHR ''b'']
      else if n = 12 then [CHR 0x5C, CHR ''f'']
      else if 32 \<le> n \<and> n \<le> 126 then [c]
      else [CHR 0x5C, CHR ''u'', CHR ''0'', CHR ''0'', hex_digit (n div 16), hex_digit (n mod 16)])"

definition quote :: "string \<Rightarrow> string" where
  "quote s = CHR 0x22 # concat (map escape_char s) @ [CHR 0x22]"

fun join :: "string \<Rightarrow> string list \<Rightarrow> string" where
  "join sep [] = []"
| "join sep [x] = x"
| "join sep (x # y # zs) = x @ sep @ join sep (y # zs)"

fun json_dumps :: "json \<Rightarrow> string" where
  "json_dumps JNull = ''null''"
| "json_dumps (JBool b) = (if b then ''true'' else ''false'')"
| "json_dumps (JInt n) = int_str n"
| "json_dumps (JStr s) = quote s"
| "json_dumps (JArr xs) = ''['' @ join '', '' (map json_dumps xs) @ '']''"
| "json_dumps (JObj kvs) =
     ''{'' @ join '', '' (map (\<lambda>kv. quote (fst kv) @ '': '' @ json_dumps (snd kv)) kvs) @ ''}''"

fun loads_table :: "(string \<times> json) list \<Rightarrow> string \<Rightarrow> error + json" where
  "loads_table [] s = Inl JSONDecodeError"
| "loads_table ((c, j) # t) s = (if s = c then Inr j else loads_table t s)"

section \<open>Worked examples\<close>

text \<open>
  The documents of the specification's scenarios: states whose newest record has the
  timestamp in the name, and responses of two images, newest first.
\<close>

definition state_100 :: json where
  "state_100 = state [rec 100 ''url100'']"

definition state_101 :: json where
  "state_101 = state [rec 101 ''url101'', rec 100 ''url100'']"

definition state_102 :: json where
  "state_102 = state [rec 102 ''url102'', rec 101 ''url101'', rec 100 ''url100'']"

definition state_103 :: json where
  "state_103 = state [rec 103 ''c'', rec 101 ''b'', rec 100 ''url100'']"

definition state_200 :: json where
  "state_200 = state [rec 200 ''url200'', rec 100 ''url100'']"

definition state_tie :: json where
  "state_tie = state [rec 101 ''b'', rec 100 ''url100'']"

definition batch_102 :: json where
  "batch_102 = images [image 102 ''url102'', image 101 ''url101'']"

definition batch_103 :: json where
  "batch_103 = images [image 103 ''c'', image 101 ''b'']"

definition batch_stale :: json where
  "batch_stale = images [image 150 ''x'', image 100 ''y'']"

definition batch_tie :: json where
  "batch_tie = images [image 101 ''a'', image 101 ''b'']"

text \<open>A response whose newest image has no \<^verbatim>\<open>imageTimestamp\<close>.\<close>

definition batch_broken :: json where
  "batch_broken = images [JObj [(''imageUrl'', JStr ''url102'')], image 101 ''url101'']"

text \<open>
  \<^verbatim>\<open>json.load\<close> on the text of these documents, the body of a response, and the world
  in which \<^verbatim>\<open>out.json\<close> holds a document as \<^verbatim>\<open>json.dumps\<close> writes it.
\<close>

definition example_loads :: "string \<Rightarrow> error + json" where
  "example_loads =
     loads_table (map (\<lambda>j. (json_dumps j, j))
       [batch_102, batch_103, batch_stale, batch_tie, batch_broken,
        state_100, state_101, state_102, state_103, state_200, state_tie, state []])"

definition response :: "json \<Rightarrow> error + string" where
  "response j = Inr (json_dumps j)"

definition on_disk :: "json \<Rightarrow> line list \<Rightarrow> world" where
  "on_disk j printed = \<lparr>out_json = Some (json_dumps j), stdout = printed\<rparr>"

section \<open>Facts about one pass and about the loop\<close>

lemma bind_simps [simp]: "bind (Inl e) f = Inl e" "bind (Inr x) f = f x"
  by (simp_all add: bind_def)

lemma bind_eq_Inr: "bind m f = Inr y \<longleftrightarrow> (\<exists>x. m = Inr x \<and> f x = Inr y)"
  by (cases m) auto

lemma map_of_with_list:
  "map_of kvs ''list'' = Some l \<Longrightarrow>
   map_of (map (\<lambda>(k, v). if k = ''list'' then (k, l') else (k, v)) kvs) ''list'' = Some l'"
  by (induction kvs) (auto split: if_splits)

lemma getitem_key_with_list:
  "getitem_key olddata ''list'' = Inr l \<Longrightarrow> getitem_key (with_list olddata l') ''list'' = Inr l'"
  by (cases olddata) (auto simp: map_of_with_list split: option.splits)

lemma getitem_key_Inr_obj:
  "getitem_key j k = Inr v \<Longrightarrow> \<exists>kvs. j = JObj kvs \<and> map_of kvs k = Some v"
  by (cases j) (auto split: option.splits)

lemma merge_image_skip:
  "head_ts olddata = Inr r \<Longrightarrow> new_ts newdata i = Inr n \<Longrightarrow> \<not> r < n \<Longrightarrow>
   merge_image newdata i olddata = Inr (olddata, [])"
  by (auto simp: merge_image_def head_ts_def new_ts_def recent_of_def newtime_of_def bind_eq_Inr)

lemma merge_image_insert:
  "head_ts olddata = Inr r \<Longrightarrow> new_ts newdata i = Inr n \<Longrightarrow> r < n \<Longrightarrow>
   getitem_key olddata ''list'' = Inr (JArr xs) \<Longrightarrow> record_of newdata i = Inr x \<Longrightarrow>
   newtime_of newdata i = Inr t \<Longrightarrow>
   merge_image newdata i olddata = Inr (with_list olddata (JArr (x # xs)), [InsertedNewTime t])"
  by (auto simp: merge_image_def head_ts_def new_ts_def recent_of_def newtime_of_def record_of_def
      bind_eq_Inr)

lemma merge_image_Inr:
  "merge_image newdata i olddata = Inr (olddata', out) \<Longrightarrow>
   \<exists>r n. head_ts olddata = Inr r \<and> new_ts newdata i = Inr n \<and>
     (if r < n
      then \<exists>xs x t. getitem_key olddata ''list'' = Inr (JArr xs) \<and> record_of newdata i = Inr x \<and>
             newtime_of newdata i = Inr t \<and> olddata' = with_list olddata (JArr (x # xs)) \<and>
             out = [InsertedNewTime t]
      else olddata' = olddata \<and> out = [])"
  apply (auto simp: merge_image_def head_ts_def new_ts_def recent_of_def newtime_of_def record_of_def
      bind_eq_Inr split: if_splits)
  subgoal for images img newtime l l0 recent r n xs url
    by (cases l) auto
  done

lemma record_of_ts:
  "record_of newdata i = Inr x \<Longrightarrow> record_ts x = new_ts newdata i"
  by (auto simp: record_of_def record_ts_def new_ts_def newtime_of_def bind_eq_Inr)

lemma record_of_recent:
  "record_of newdata i = Inr x \<Longrightarrow> getitem_idx x 0 = newtime_of newdata i"
  by (auto simp: record_of_def newtime_of_def bind_eq_Inr)

lemma recent_of_Cons:
  "getitem_key olddata ''list'' = Inr (JArr (x # xs)) \<Longrightarrow> recent_of olddata = getitem_idx x 0"
  by (simp add: recent_of_def)

lemma head_ts_Cons:
  "getitem_key olddata ''list'' = Inr (JArr (x # xs)) \<Longrightarrow> head_ts olddata = record_ts x"
  by (simp add: head_ts_def record_ts_def recent_of_def)

lemma head_ts_Nil:
  "getitem_key olddata ''list'' = Inr (JArr []) \<Longrightarrow> head_ts olddata = Inl IndexError"
  by (simp add: head_ts_def recent_of_def)

lemma head_ts_list:
  "getitem_key olddata ''list'' = Inr (JArr xs) \<Longrightarrow> head_ts olddata = Inr r \<Longrightarrow>
   \<exists>y ys. xs = y # ys \<and> record_ts y = Inr r"
  by (cases xs) (auto simp: head_ts_Nil head_ts_Cons)


lemma merge_image_step:
  assumes "merge_image newdata i olddata = Inr (olddata', out)"
  shows "(\<exists>r n. head_ts olddata = Inr r \<and> new_ts newdata i = Inr n \<and> n \<le> r \<and>
            olddata' = olddata \<and> out = []) \<or>
         (\<exists>r n xs x t. head_ts olddata = Inr r \<and> new_ts newdata i = Inr n \<and> r < n \<and>
            getitem_key olddata ''list'' = Inr (JArr xs) \<and>
            getitem_key olddata' ''list'' = Inr (JArr (x # xs)) \<and>
            olddata' = with_list olddata (JArr (x # xs)) \<and>
            record_of newdata i = Inr x \<and> record_ts x = Inr n \<and> head_ts olddata' = Inr n \<and>
            newtime_of newdata i = Inr t \<and> recent_of olddata' = Inr t \<and>
            out = [InsertedNewTime t])"
proof -
  from merge_image_Inr [OF assms] obtain r n where
    h: "head_ts olddata = Inr r" and n: "new_ts newdata i = Inr n" and
    c: "if r < n
        then \<exists>xs x t. getitem_key olddata ''list'' = Inr (JArr xs) \<and> record_of newdata i = Inr x \<and>
               newtime_of newdata i = Inr t \<and> olddata' = with_list olddata (JArr (x # xs)) \<and>
               out = [InsertedNewTime t]
        else olddata' = olddata \<and> out = []"
    by blast
  show ?thesis
  proof (cases "r < n")
    case False
    with h n c show ?thesis by auto
  next
    case True
    with c obtain xs x t where
      l: "getitem_key olddata ''list'' = Inr (JArr xs)" and x: "record_of newdata i = Inr x" and
      t: "newtime_of newdata i = Inr t" and o: "olddata' = with_list olddata (JArr (x # xs))" and
      p: "out = [InsertedNewTime t]"
      by auto
    have l': "getitem_key olddata' ''list'' = Inr (JArr (x # xs))"
      using l o by (simp add: getitem_key_with_list)
    have xn: "record_ts x = Inr n"
      using x n by (simp add: record_of_ts)
    have hn: "head_ts olddata' = Inr n"
      using l' xn by (simp add: head_ts_Cons)
    have rt: "recent_of olddata' = Inr t"
      using l' x t by (simp add: recent_of_Cons record_of_recent)
    show ?thesis
      using h n True l l' o x xn hn t rt p by blast
  qed
qed

lemma merge_loop_written:
  "merge_loop dumps newdata js olddata w = (Inr olddata', w') \<Longrightarrow> js \<noteq> [] \<Longrightarrow>
   out_json w' = Some (dumps olddata')"
proof (induction js arbitrary: olddata w)
  case Nil
  then show ?case by simp
next
  case (Cons i js)
  then show ?case
    by (cases js) (auto split: sum.splits prod.splits)
qed

lemma merge_loop_skip:
  "head_ts olddata = Inr r \<Longrightarrow> \<forall>i\<in>set js. \<exists>n. new_ts newdata i = Inr n \<and> n \<le> r \<Longrightarrow>
   merge_loop dumps newdata js olddata w =
     (Inr olddata, if js = [] then w else w\<lparr>out_json := Some (dumps olddata)\<rparr>)"
proof (induction js arbitrary: w)
  case Nil
  then show ?case by simp
next
  case (Cons i js)
  from Cons.prems obtain n where "new_ts newdata i = Inr n" "n \<le> r" by auto
  with Cons.prems have s: "merge_image newdata i olddata = Inr (olddata, [])"
    by (simp add: merge_image_skip)
  show ?case
    using Cons.IH [of "w\<lparr>out_json := Some (dumps olddata)\<rparr>"] Cons.prems s by simp
qed

lemma merge_loop_head:
  "merge_loop dumps newdata js olddata w = (Inr olddata', w') \<Longrightarrow> head_ts olddata = Inr r \<Longrightarrow>
   \<exists>r'. head_ts olddata' = Inr r' \<and> r \<le> r'"
proof (induction js arbitrary: olddata w r)
  case Nil
  then show ?case by auto
next
  case (Cons i js)
  from Cons.prems obtain o1 out1 where
    s: "merge_image newdata i olddata = Inr (o1, out1)" and
    l: "merge_loop dumps newdata js o1
          (w\<lparr>stdout := stdout w @ out1, out_json := Some (dumps o1)\<rparr>) = (Inr olddata', w')"
    by (auto split: sum.splits prod.splits)
  from merge_image_step [OF s] Cons.prems(2) obtain r1 where
    "head_ts o1 = Inr r1" "r \<le> r1"
    by auto
  with Cons.IH [OF l] show ?case by force
qed

lemma merge_loop_bounded:
  "merge_loop dumps newdata js olddata w = (Inr olddata', w') \<Longrightarrow> i \<in> set js \<Longrightarrow>
   \<exists>n r'. new_ts newdata i = Inr n \<and> head_ts olddata' = Inr r' \<and> n \<le> r'"
proof (induction js arbitrary: olddata w)
  case Nil
  then show ?case by auto
next
  case (Cons j js)
  from Cons.prems obtain o1 out1 where
    s: "merge_image newdata j olddata = Inr (o1, out1)" and
    l: "merge_loop dumps newdata js o1
          (w\<lparr>stdout := stdout w @ out1, out_json := Some (dumps o1)\<rparr>) = (Inr olddata', w')"
    by (auto split: sum.splits prod.splits)
  show ?case
  proof (cases "i \<in> set js")
    case True
    from Cons.IH [OF l True] show ?thesis .
  next
    case False
    with Cons.prems have ij: "i = j" by simp
    from merge_image_step [OF s] obtain n r1 where
      "new_ts newdata j = Inr n" "head_ts o1 = Inr r1" "n \<le> r1"
      by auto
    with merge_loop_head [OF l] ij show ?thesis by force
  qed
qed


lemma range_down_numgrabbed: "range_down numgrabbed = [1, 0]"
  by (simp add: range_down_def numgrabbed_def numeral_2_eq_2)

lemma range_down_Suc: "range_down (Suc k) = k # range_down k"
  by (simp add: range_down_def)

lemma merge_image_fails:
  "head_ts olddata = Inl e \<Longrightarrow> \<exists>e'. merge_image newdata i olddata = Inl e'"
proof (cases "merge_image newdata i olddata")
  case (Inl a)
  then show ?thesis by simp
next
  case (Inr b)
  assume h: "head_ts olddata = Inl e"
  obtain o' out where "b = (o', out)" by (cases b)
  with Inr merge_image_Inr [of newdata i olddata o' out] h show ?thesis by auto
qed

lemma merge_image_new_fails:
  "new_ts newdata i = Inl e \<Longrightarrow> \<exists>e'. merge_image newdata i olddata = Inl e'"
proof (cases "merge_image newdata i olddata")
  case (Inl a)
  then show ?thesis by simp
next
  case (Inr b)
  assume h: "new_ts newdata i = Inl e"
  obtain o' out where "b = (o', out)" by (cases b)
  with Inr merge_image_Inr [of newdata i olddata o' out] h show ?thesis by auto
qed

lemma merge_image_succeeds:
  assumes "head_ts olddata = Inr r" and "new_ts newdata i = Inr n"
    and "getitem_key olddata ''list'' = Inr (JArr xs)" and "record_of newdata i = Inr x"
  shows "\<exists>olddata' out. merge_image newdata i olddata = Inr (olddata', out)"
proof (cases "r < n")
  case True
  from assms(2) obtain t where "newtime_of newdata i = Inr t"
    by (auto simp: new_ts_def bind_eq_Inr)
  with merge_image_insert [OF assms(1,2) True assms(3,4)] show ?thesis by blast
next
  case False
  with merge_image_skip [OF assms(1,2)] show ?thesis by blast
qed

lemma new_ts_image_ts:
  "getitem_key newdata ''images'' = Inr (JArr imgs) \<Longrightarrow>
   new_ts newdata i = (if i < length imgs then image_ts (imgs ! i) else Inl IndexError)"
  by (simp add: new_ts_def newtime_of_def image_ts_def bind_def)

lemma merge_image_prepends:
  assumes "merge_image newdata i olddata = Inr (olddata', out)"
    and "getitem_key olddata ''list'' = Inr (JArr xs)"
  shows "\<exists>ys. getitem_key olddata' ''list'' = Inr (JArr (ys @ xs)) \<and> length ys \<le> 1 \<and>
           (strictly_descending xs \<longrightarrow> strictly_descending (ys @ xs))"
proof -
  from merge_image_step [OF assms(1)] show ?thesis
  proof
    assume "\<exists>r n. head_ts olddata = Inr r \<and> new_ts newdata i = Inr n \<and> n \<le> r \<and>
              olddata' = olddata \<and> out = []"
    with assms(2) have "getitem_key olddata' ''list'' = Inr (JArr ([] @ xs))" by auto
    then show ?thesis by (intro exI [of _ "[]"]) simp
  next
    assume "\<exists>r n xs x t. head_ts olddata = Inr r \<and> new_ts newdata i = Inr n \<and> r < n \<and>
            getitem_key olddata ''list'' = Inr (JArr xs) \<and>
            getitem_key olddata' ''list'' = Inr (JArr (x # xs)) \<and>
            olddata' = with_list olddata (JArr (x # xs)) \<and>
            record_of newdata i = Inr x \<and> record_ts x = Inr n \<and> head_ts olddata' = Inr n \<and>
            newtime_of newdata i = Inr t \<and> recent_of olddata' = Inr t \<and>
            out = [InsertedNewTime t]"
    then obtain r n x where
      h: "head_ts olddata = Inr r" and rn: "r < n" and
      l': "getitem_key olddata' ''list'' = Inr (JArr (x # xs))" and xn: "record_ts x = Inr n"
      using assms(2) by auto
    from head_ts_list [OF assms(2) h] obtain y ys where
      xs: "xs = y # ys" and y: "record_ts y = Inr r"
      by blast
    have "ts_gt x y" using xn y rn by (simp add: ts_gt_def)
    then have "strictly_descending xs \<longrightarrow> strictly_descending ([x] @ xs)"
      using xs by simp
    with l' show ?thesis by (intro exI [of _ "[x]"]) simp
  qed
qed

lemma merge_loop_prepends:
  "merge_loop dumps newdata js olddata w = (Inr olddata', w') \<Longrightarrow>
   getitem_key olddata ''list'' = Inr (JArr xs) \<Longrightarrow>
   \<exists>ys. getitem_key olddata' ''list'' = Inr (JArr (ys @ xs)) \<and> length ys \<le> length js \<and>
     (strictly_descending xs \<longrightarrow> strictly_descending (ys @ xs))"
proof (induction js arbitrary: olddata w xs)
  case Nil
  then have "getitem_key olddata' ''list'' = Inr (JArr ([] @ xs))" by auto
  then show ?case by (intro exI [of _ "[]"]) simp
next
  case (Cons i js)
  from Cons.prems obtain o1 out1 where
    s: "merge_image newdata i olddata = Inr (o1, out1)" and
    l: "merge_loop dumps newdata js o1
          (w\<lparr>stdout := stdout w @ out1, out_json := Some (dumps o1)\<rparr>) = (Inr olddata', w')"
    by (auto split: sum.splits prod.splits)
  from merge_image_prepends [OF s Cons.prems(2)] obtain ys1 where
    l1: "getitem_key o1 ''list'' = Inr (JArr (ys1 @ xs))" and n1: "length ys1 \<le> 1" and
    d1: "strictly_descending xs \<longrightarrow> strictly_descending (ys1 @ xs)"
    by blast
  from Cons.IH [OF l l1] obtain ys where
    l2: "getitem_key olddata' ''list'' = Inr (JArr (ys @ ys1 @ xs))" and
    n2: "length ys \<le> length js" and
    d2: "strictly_descending (ys1 @ xs) \<longrightarrow> strictly_descending (ys @ ys1 @ xs)"
    by blast
  show ?case
    using l2 n1 n2 d1 d2 by (intro exI [of _ "ys @ ys1"]) simp
qed

lemma merge_loop_disk:
  "merge_loop dumps newdata js olddata w = (r, w') \<Longrightarrow>
   getitem_key olddata ''list'' = Inr (JArr xs) \<Longrightarrow>
   w' = w \<or>
   (\<exists>o' ys. out_json w' = Some (dumps o') \<and> getitem_key o' ''list'' = Inr (JArr (ys @ xs)) \<and>
      length ys \<le> length js)"
proof (induction js arbitrary: olddata w xs)
  case Nil
  then show ?case by simp
next
  case (Cons i js)
  show ?case
  proof (cases "merge_image newdata i olddata")
    case (Inl e)
    with Cons.prems show ?thesis by simp
  next
    case (Inr b)
    obtain o1 out1 where b: "b = (o1, out1)" by (cases b)
    let ?w1 = "w\<lparr>stdout := stdout w @ out1, out_json := Some (dumps o1)\<rparr>"
    from Inr b Cons.prems have l: "merge_loop dumps newdata js o1 ?w1 = (r, w')" by simp
    from Inr b merge_image_prepends [of newdata i olddata o1 out1 xs] Cons.prems(2) obtain ys1 where
      l1: "getitem_key o1 ''list'' = Inr (JArr (ys1 @ xs))" and n1: "length ys1 \<le> 1"
      by auto
    from Cons.IH [OF l l1] show ?thesis
    proof
      assume "w' = ?w1"
      then have "out_json w' = Some (dumps o1)" by simp
      with l1 n1 show ?thesis by (intro disjI2 exI [of _ o1] exI [of _ ys1]) simp
    next
      assume "\<exists>o' ys. out_json w' = Some (dumps o') \<and>
                getitem_key o' ''list'' = Inr (JArr (ys @ ys1 @ xs)) \<and> length ys \<le> length js"
      then obtain o' ys where
        "out_json w' = Some (dumps o')" "getitem_key o' ''list'' = Inr (JArr (ys @ ys1 @ xs))"
        "length ys \<le> length js"
        by blast
      with n1 show ?thesis by (intro disjI2 exI [of _ o'] exI [of _ "ys @ ys1"]) simp
    qed
  qed
qed

lemma merge_loop_all_new:
  assumes "\<forall>i<k. record_of newdata i = Inr (rs i) \<and> new_ts newdata i = Inr (ts i) \<and>
             newtime_of newdata i = Inr (nt i)"
    and "\<forall>i. Suc i < k \<longrightarrow> ts (Suc i) < ts i"
    and "head_ts olddata = Inr h" and "0 < k \<longrightarrow> h < ts (k - 1)"
    and "getitem_key olddata ''list'' = Inr (JArr xs)"
  shows "\<exists>olddata' w'. merge_loop dumps newdata (range_down k) olddata w = (Inr olddata', w') \<and>
           getitem_key olddata' ''list'' = Inr (JArr (map rs [0..<k] @ xs)) \<and>
           stdout w' = stdout w @ map (\<lambda>i. InsertedNewTime (nt i)) (range_down k)"
  using assms
proof (induction k arbitrary: olddata w h xs)
  case 0
  then show ?case by (simp add: range_down_def)
next
  case (Suc k)
  from Suc.prems(1) have
    rk: "record_of newdata k = Inr (rs k)" and tk: "new_ts newdata k = Inr (ts k)" and
    nk: "newtime_of newdata k = Inr (nt k)"
    by simp_all
  from Suc.prems(4) have hk: "h < ts k" by simp
  let ?o1 = "with_list olddata (JArr (rs k # xs))"
  let ?w1 = "w\<lparr>stdout := stdout w @ [InsertedNewTime (nt k)], out_json := Some (dumps ?o1)\<rparr>"
  have s: "merge_image newdata k olddata = Inr (?o1, [InsertedNewTime (nt k)])"
    by (rule merge_image_insert [OF Suc.prems(3) tk hk Suc.prems(5) rk nk])
  have l1: "getitem_key ?o1 ''list'' = Inr (JArr (rs k # xs))"
    using Suc.prems(5) by (rule getitem_key_with_list)
  have h1: "head_ts ?o1 = Inr (ts k)"
    using l1 rk tk by (simp add: head_ts_Cons record_of_ts)
  have a1: "\<forall>i<k. record_of newdata i = Inr (rs i) \<and> new_ts newdata i = Inr (ts i) \<and>
             newtime_of newdata i = Inr (nt i)"
    using Suc.prems(1) by simp
  have a2: "\<forall>i. Suc i < k \<longrightarrow> ts (Suc i) < ts i"
    using Suc.prems(2) by simp
  have a4: "0 < k \<longrightarrow> ts k < ts (k - 1)"
    using Suc.prems(2) by (cases k) auto
  from Suc.IH [OF a1 a2 h1 a4 l1, of ?w1] obtain olddata' w' where
    r: "merge_loop dumps newdata (range_down k) ?o1 ?w1 = (Inr olddata', w')" and
    l: "getitem_key olddata' ''list'' = Inr (JArr (map rs [0..<k] @ rs k # xs))" and
    p: "stdout w' = stdout ?w1 @ map (\<lambda>i. InsertedNewTime (nt i)) (range_down k)"
    by blast
  have "merge_loop dumps newdata (range_down (Suc k)) olddata w = (Inr olddata', w')"
    using s r by (simp add: range_down_Suc)
  moreover have "getitem_key olddata' ''list'' = Inr (JArr (map rs [0..<Suc k] @ xs))"
    using l by simp
  moreover have "stdout w' = stdout w @ map (\<lambda>i. InsertedNewTime (nt i)) (range_down (Suc k))"
    using p by (simp add: range_down_Suc)
  ultimately show ?case by blast
qed

lemma ts_gt_trans: "ts_gt x y \<Longrightarrow> ts_gt y z \<Longrightarrow> ts_gt x z"
  by (auto simp: ts_gt_def split: sum.splits)

lemma strictly_descending_Cons:
  "strictly_descending (x # xs) \<Longrightarrow> strictly_descending xs"
  by (cases xs) auto

lemma strictly_descending_all:
  "strictly_descending (x # xs) \<Longrightarrow> y \<in> set xs \<Longrightarrow> ts_gt x y"
proof (induction xs arbitrary: x)
  case Nil
  then show ?case by simp
next
  case (Cons a xs)
  show ?case
  proof (cases "y = a")
    case True
    with Cons.prems show ?thesis by simp
  next
    case False
    with Cons.prems have y: "y \<in> set xs" by simp
    from Cons.prems have "ts_gt x a" "strictly_descending (a # xs)" by simp_all
    with Cons.IH [OF _ y] show ?thesis by (blast intro: ts_gt_trans)
  qed
qed

lemma strictly_descending_distinct:
  "strictly_descending xs \<Longrightarrow> distinct (map record_ts xs)"
proof (induction xs)
  case Nil
  then show ?case by simp
next
  case (Cons x xs)
  have "record_ts x \<notin> record_ts ` set xs"
  proof
    assume "record_ts x \<in> record_ts ` set xs"
    then obtain y where y: "y \<in> set xs" and e: "record_ts x = record_ts y" by auto
    from strictly_descending_all [OF Cons.prems y] e show False
      by (auto simp: ts_gt_def split: sum.splits)
  qed
  with Cons show ?case by (simp add: strictly_descending_Cons)
qed

section \<open>The claims\<close>

lemma update_py_loop:
  "bind p loads = Inr newdata \<Longrightarrow> out_json w = Some content \<Longrightarrow> loads content = Inr olddata \<Longrightarrow>
   update_py loads dumps p w = merge_loop dumps newdata (range_down numgrabbed) olddata w"
  by (simp add: update_py_def)

lemma update_py_Inr:
  "update_py loads dumps p w = (Inr olddata', w') \<Longrightarrow>
   \<exists>newdata content olddata. bind p loads = Inr newdata \<and> out_json w = Some content \<and>
     loads content = Inr olddata \<and>
     merge_loop dumps newdata (range_down numgrabbed) olddata w = (Inr olddata', w')"
  by (auto simp: update_py_def split: sum.splits option.splits)

lemma world_out_json_same: "out_json w = c \<Longrightarrow> w\<lparr>out_json := c\<rparr> = w"
  by auto

text \<open>
  Claim C1 (insertion correctness, end-to-end scenario). With the state
  \<^verbatim>\<open>{"list": [[100, "url100"]]}\<close> on disk and the response, newest first,
  \<^verbatim>\<open>[[102, "url102"], [101, "url101"]]\<close>, the run succeeds, prints the two insertions
  and leaves \<^verbatim>\<open>{"list": [[102, "url102"], [101, "url101"], [100, "url100"]]}\<close> on
  disk. With any stored list whose head has timestamp 100 and the response
  \<^verbatim>\<open>[(103, "c"), (101, "b")]\<close>, both records are inserted and the list reads
  103, 101, 100, followed by the rest.
\<close>

theorem insertion_scenarios:
  "(out_json w = Some content \<and> loads content = Inr (state [rec 100 ''url100'']) \<and>
    bind p loads = Inr (images [image 102 ''url102'', image 101 ''url101'']) \<longrightarrow>
    update_py loads dumps p w =
      (Inr (state [rec 102 ''url102'', rec 101 ''url101'', rec 100 ''url100'']),
       w\<lparr>stdout := stdout w @ [InsertedNewTime (JInt 101), InsertedNewTime (JInt 102)],
          out_json :=
            Some (dumps (state [rec 102 ''url102'', rec 101 ''url101'', rec 100 ''url100'']))\<rparr>)) \<and>
   (out_json w2 = Some content2 \<and> loads content2 = Inr (state (rec 100 u # rest)) \<and>
    bind p2 loads = Inr (images [image 103 ''c'', image 101 ''b'']) \<longrightarrow>
    update_py loads dumps p2 w2 =
      (Inr (state (rec 103 ''c'' # rec 101 ''b'' # rec 100 u # rest)),
       w2\<lparr>stdout := stdout w2 @ [InsertedNewTime (JInt 101), InsertedNewTime (JInt 103)],
           out_json := Some (dumps (state (rec 103 ''c'' # rec 101 ''b'' # rec 100 u # rest)))\<rparr>))"
  by (simp add: update_py_def range_down_numgrabbed merge_image_def state_def rec_def images_def
      image_def)

theorem insertion_scenarios_witness:
  "update_py example_loads json_dumps (response batch_102) (on_disk state_100 []) =
     (Inr state_102, on_disk state_102 [InsertedNewTime (JInt 101), InsertedNewTime (JInt 102)]) \<and>
   update_py example_loads json_dumps (response batch_103) (on_disk state_100 []) =
     (Inr state_103, on_disk state_103 [InsertedNewTime (JInt 101), InsertedNewTime (JInt 103)])"
proof -
  have a: "out_json (on_disk state_100 []) = Some (json_dumps state_100)"
    by (simp add: on_disk_def)
  have b: "example_loads (json_dumps state_100) = Inr (state [rec 100 ''url100''])"
    by code_simp
  have c: "bind (response batch_102) example_loads =
             Inr (images [image 102 ''url102'', image 101 ''url101''])"
    by code_simp
  have d: "bind (response batch_103) example_loads = Inr (images [image 103 ''c'', image 101 ''b''])"
    by code_simp
  from insertion_scenarios [where w = "on_disk state_100 []" and content = "json_dumps state_100"
      and loads = example_loads and p = "response batch_102" and dumps = json_dumps
      and ?w2.0 = "on_disk state_100 []" and ?content2.0 = "json_dumps state_100"
      and ?p2.0 = "response batch_103" and u = "''url100''" and rest = "[]"] a b c d
  show ?thesis
    by (simp add: on_disk_def state_102_def state_103_def)
qed

text \<open>
  Claim C2 (ordering invariant). If the timestamps of the stored list are
  strictly descending, then after every successful run, whatever the response was, the
  list written to disk is strictly descending too: each record has a greater timestamp
  than the next one, so no timestamp occurs twice.
\<close>

theorem ordering_invariant:
  assumes "out_json w = Some content" and "loads content = Inr olddata"
    and "getitem_key olddata ''list'' = Inr (JArr xs)" and "strictly_descending xs"
    and "update_py loads dumps p w = (Inr olddata', w')"
  shows "\<exists>ys. getitem_key olddata' ''list'' = Inr (JArr ys) \<and> strictly_descending ys \<and>
           distinct (map record_ts ys) \<and> out_json w' = Some (dumps olddata')"
proof -
  from update_py_Inr [OF assms(5)] assms(1,2) obtain newdata where
    l: "merge_loop dumps newdata (range_down numgrabbed) olddata w = (Inr olddata', w')"
    by auto
  from merge_loop_prepends [OF l assms(3)] assms(4) obtain ys where
    "getitem_key olddata' ''list'' = Inr (JArr (ys @ xs))" "strictly_descending (ys @ xs)"
    by blast
  moreover have "out_json w' = Some (dumps olddata')"
    using merge_loop_written [OF l] by (simp add: range_down_numgrabbed)
  ultimately show ?thesis
    by (blast intro: strictly_descending_distinct)
qed

theorem ordering_invariant_witness:
  "\<exists>ys. getitem_key state_102 ''list'' = Inr (JArr ys) \<and> strictly_descending ys \<and>
     distinct (map record_ts ys) \<and>
     out_json (on_disk state_102 [InsertedNewTime (JInt 101), InsertedNewTime (JInt 102)]) =
       Some (json_dumps state_102)"
proof -
  have b: "example_loads (json_dumps state_100) = Inr state_100"
    by code_simp
  have c: "getitem_key state_100 ''list'' = Inr (JArr [rec 100 ''url100''])"
    by code_simp
  have d: "strictly_descending [rec 100 ''url100'']"
    by simp
  have e: "update_py example_loads json_dumps (response batch_102) (on_disk state_100 []) =
     (Inr state_102, on_disk state_102 [InsertedNewTime (JInt 101), InsertedNewTime (JInt 102)])"
    by code_simp
  have a: "out_json (on_disk state_100 []) = Some (json_dumps state_100)"
    by (simp add: on_disk_def)
  from ordering_invariant [OF a b c d e] show ?thesis .
qed

text \<open>
  Claim C3 (idempotence). After a successful run, a second run with the same
  response, reading back what the first run wrote, inserts nothing: it prints nothing
  and leaves the file and the list as the first run left them.
\<close>

theorem idempotence:
  assumes "update_py loads dumps p w = (Inr olddata1, w1)"
    and "loads (dumps olddata1) = Inr olddata1"
  shows "update_py loads dumps p w1 = (Inr olddata1, w1)"
proof -
  from update_py_Inr [OF assms(1)] obtain newdata content olddata where
    p: "bind p loads = Inr newdata" and
    l: "merge_loop dumps newdata (range_down numgrabbed) olddata w = (Inr olddata1, w1)"
    by blast
  have d: "out_json w1 = Some (dumps olddata1)"
    using merge_loop_written [OF l] by (simp add: range_down_numgrabbed)
  from merge_loop_bounded [OF l] have
    b: "\<forall>i\<in>set (range_down numgrabbed). \<exists>n r'. new_ts newdata i = Inr n \<and>
          head_ts olddata1 = Inr r' \<and> n \<le> r'"
    by blast
  then obtain r where r: "head_ts olddata1 = Inr r"
    by (auto simp: range_down_numgrabbed)
  with b have "\<forall>i\<in>set (range_down numgrabbed). \<exists>n. new_ts newdata i = Inr n \<and> n \<le> r"
    by auto
  from merge_loop_skip [OF r this, of dumps w1] d have
    "merge_loop dumps newdata (range_down numgrabbed) olddata1 w1 = (Inr olddata1, w1)"
    by (simp add: range_down_numgrabbed world_out_json_same)
  with update_py_loop [OF p d assms(2), of dumps] show ?thesis by simp
qed

theorem idempotence_witness:
  "update_py example_loads json_dumps (response batch_102)
     (on_disk state_102 [InsertedNewTime (JInt 101), InsertedNewTime (JInt 102)]) =
   (Inr state_102, on_disk state_102 [InsertedNewTime (JInt 101), InsertedNewTime (JInt 102)])"
proof -
  have a: "update_py example_loads json_dumps (response batch_102) (on_disk state_100 []) =
     (Inr state_102, on_disk state_102 [InsertedNewTime (JInt 101), InsertedNewTime (JInt 102)])"
    by code_simp
  have b: "example_loads (json_dumps state_102) = Inr state_102"
    by code_simp
  from idempotence [OF a b] show ?thesis .
qed

text \<open>
  Claim C4 (strict comparison). An image whose timestamp equals the timestamp
  of the stored head is not inserted: the pass leaves \<^verbatim>\<open>olddata\<close> as it is and
  prints nothing.
\<close>

theorem equal_timestamp_not_inserted:
  "head_ts olddata = Inr t \<Longrightarrow> new_ts newdata i = Inr t \<Longrightarrow>
   merge_image newdata i olddata = Inr (olddata, [])"
  by (simp add: merge_image_skip)

theorem equal_timestamp_not_inserted_witness:
  "merge_image (images [image 100 ''again'', image 99 ''older'']) 0 state_100 = Inr (state_100, [])"
proof -
  have a: "head_ts state_100 = Inr 100"
    by code_simp
  have b: "new_ts (images [image 100 ''again'', image 99 ''older'']) 0 = Inr 100"
    by code_simp
  from equal_timestamp_not_inserted [OF a b] show ?thesis .
qed

text \<open>
  Claim C5 (no-op on stale data). If every timestamp of the response is at most
  the timestamp \<open>h\<close> of the stored head, and the file holds the state as
  \<^verbatim>\<open>json.dumps\<close> writes it (both scripts of the repository write it so), the run
  leaves the world as it was: the file is the same text and nothing is printed. When
  the response holds the \<^verbatim>\<open>numgrabbed\<close> images asked for, the run succeeds with the
  list unchanged; with fewer it raises before it writes anything.
\<close>

theorem stale_batch_is_noop:
  assumes "out_json w = Some content" and "loads content = Inr olddata"
    and "dumps olddata = content"
    and "bind p loads = Inr newdata" and "getitem_key newdata ''images'' = Inr (JArr imgs)"
    and "head_ts olddata = Inr h"
    and "\<forall>img\<in>set imgs. \<exists>n. image_ts img = Inr n \<and> n \<le> h"
  shows "snd (update_py loads dumps p w) = w \<and>
         (numgrabbed \<le> length imgs \<longrightarrow> fst (update_py loads dumps p w) = Inr olddata)"
proof (cases "numgrabbed \<le> length imgs")
  case True
  have "\<forall>i\<in>set (range_down numgrabbed). \<exists>n. new_ts newdata i = Inr n \<and> n \<le> h"
  proof
    fix i assume "i \<in> set (range_down numgrabbed)"
    with True have i: "i < length imgs" by (auto simp: range_down_def)
    then have "imgs ! i \<in> set imgs" by simp
    with assms(7) i show "\<exists>n. new_ts newdata i = Inr n \<and> n \<le> h"
      by (simp add: new_ts_image_ts [OF assms(5)])
  qed
  from merge_loop_skip [OF assms(6) this, of dumps w] assms(1,3) have
    "merge_loop dumps newdata (range_down numgrabbed) olddata w = (Inr olddata, w)"
    by (simp add: range_down_numgrabbed world_out_json_same)
  with update_py_loop [OF assms(4,1,2), of dumps] True show ?thesis by simp
next
  case False
  then have "new_ts newdata 1 = Inl IndexError"
    by (simp add: new_ts_image_ts [OF assms(5)] numgrabbed_def)
  from merge_image_new_fails [OF this, of olddata] obtain e where
    "merge_image newdata 1 olddata = Inl e"
    by blast
  then have "merge_loop dumps newdata (range_down numgrabbed) olddata w = (Inl e, w)"
    by (simp add: range_down_numgrabbed)
  with update_py_loop [OF assms(4,1,2), of dumps] False show ?thesis by simp
qed

theorem stale_batch_is_noop_witness:
  "snd (update_py example_loads json_dumps (response batch_stale) (on_disk state_200 [])) =
     on_disk state_200 [] \<and>
   fst (update_py example_loads json_dumps (response batch_stale) (on_disk state_200 [])) =
     Inr state_200"
proof -
  have a: "out_json (on_disk state_200 []) = Some (json_dumps state_200)"
    by (simp add: on_disk_def)
  have b: "example_loads (json_dumps state_200) = Inr state_200"
    by code_simp
  have c: "json_dumps state_200 = json_dumps state_200"
    by simp
  have d: "bind (response batch_stale) example_loads = Inr batch_stale"
    by code_simp
  have e: "getitem_key batch_stale ''images'' = Inr (JArr [image 150 ''x'', image 100 ''y''])"
    by code_simp
  have f: "head_ts state_200 = Inr 200"
    by code_simp
  have g: "\<forall>img\<in>set [image 150 ''x'', image 100 ''y'']. \<exists>n. image_ts img = Inr n \<and> n \<le> 200"
    by (simp add: image_ts_def image_def)
  from stale_batch_is_noop [where dumps = json_dumps, OF a b c d e f g] show ?thesis
    by (simp add: numgrabbed_def)
qed

text \<open>
  Claim C6 (reverse traversal, refreshed \<^verbatim>\<open>recent\<close>). Let the stored head have
  timestamp \<open>h\<close>, and let the image at index 1, the older one of the response, be newer
  than it. Then the script inserts that image first, the value \<^verbatim>\<open>recent\<close> read
  afterwards is its \<^verbatim>\<open>imageTimestamp\<close>, and the image at index 0 is compared with
  that timestamp \<open>n1\<close>, not with \<open>h\<close>: it is inserted, in front of the first one, exactly
  when its timestamp is greater than \<open>n1\<close>.
\<close>

theorem recent_follows_insertion:
  assumes p: "bind p loads = Inr newdata" and f: "out_json w = Some content"
    and o: "loads content = Inr olddata"
    and l: "getitem_key olddata ''list'' = Inr (JArr xs)" and h: "head_ts olddata = Inr h"
    and n1: "new_ts newdata 1 = Inr n1" and x1: "record_of newdata 1 = Inr x1"
    and t1: "newtime_of newdata 1 = Inr t1"
    and n0: "new_ts newdata 0 = Inr n0" and x0: "record_of newdata 0 = Inr x0"
    and t0: "newtime_of newdata 0 = Inr t0"
    and new: "h < n1"
  shows "(let olddata1 = with_list olddata (JArr (x1 # xs));
              olddata2 = with_list olddata1 (JArr (x0 # x1 # xs))
          in recent_of olddata1 = Inr t1 \<and> head_ts olddata1 = Inr n1 \<and>
             getitem_key olddata2 ''list'' = Inr (JArr (x0 # x1 # xs)) \<and>
             update_py loads dumps p w =
               (if n1 < n0
                then (Inr olddata2,
                      w\<lparr>stdout := stdout w @ [InsertedNewTime t1, InsertedNewTime t0],
                         out_json := Some (dumps olddata2)\<rparr>)
                else (Inr olddata1,
                      w\<lparr>stdout := stdout w @ [InsertedNewTime t1],
                         out_json := Some (dumps olddata1)\<rparr>)))"
proof -
  let ?o1 = "with_list olddata (JArr (x1 # xs))"
  let ?o2 = "with_list ?o1 (JArr (x0 # x1 # xs))"
  have s1: "merge_image newdata 1 olddata = Inr (?o1, [InsertedNewTime t1])"
    by (rule merge_image_insert [OF h n1 new l x1 t1])
  have l1: "getitem_key ?o1 ''list'' = Inr (JArr (x1 # xs))"
    using l by (rule getitem_key_with_list)
  have h1: "head_ts ?o1 = Inr n1"
    using l1 x1 n1 by (simp add: head_ts_Cons record_of_ts)
  have r1: "recent_of ?o1 = Inr t1"
    using l1 x1 t1 by (simp add: recent_of_Cons record_of_recent)
  have l2: "getitem_key ?o2 ''list'' = Inr (JArr (x0 # x1 # xs))"
    using l1 by (rule getitem_key_with_list)
  have u: "update_py loads dumps p w = merge_loop dumps newdata [1, 0] olddata w"
    using update_py_loop [OF p f o, of dumps] by (simp add: range_down_numgrabbed)
  have r: "update_py loads dumps p w =
             (if n1 < n0
              then (Inr ?o2,
                    w\<lparr>stdout := stdout w @ [InsertedNewTime t1, InsertedNewTime t0],
                       out_json := Some (dumps ?o2)\<rparr>)
              else (Inr ?o1,
                    w\<lparr>stdout := stdout w @ [InsertedNewTime t1],
                       out_json := Some (dumps ?o1)\<rparr>))"
  proof (cases "n1 < n0")
    case True
    have "merge_image newdata 0 ?o1 = Inr (?o2, [InsertedNewTime t0])"
      by (rule merge_image_insert [OF h1 n0 True l1 x0 t0])
    with s1 u True show ?thesis by simp
  next
    case False
    have "merge_image newdata 0 ?o1 = Inr (?o1, [])"
      using False by (rule merge_image_skip [OF h1 n0])
    with s1 u False show ?thesis by simp
  qed
  show ?thesis
    unfolding Let_def using r1 h1 l2 r by blast
qed

theorem recent_follows_insertion_witness:
  "update_py example_loads json_dumps (response batch_102) (on_disk state_100 []) =
     (Inr state_102, on_disk state_102 [InsertedNewTime (JInt 101), InsertedNewTime (JInt 102)]) \<and>
   update_py example_loads json_dumps (response batch_tie) (on_disk state_100 []) =
     (Inr state_tie, on_disk state_tie [InsertedNewTime (JInt 101)]) \<and>
   recent_of state_101 = Inr (JInt 101) \<and> recent_of state_tie = Inr (JInt 101)"
proof -
  have f: "out_json (on_disk state_100 []) = Some (json_dumps state_100)"
    by (simp add: on_disk_def)
  have o: "example_loads (json_dumps state_100) = Inr state_100"
    by code_simp
  have l: "getitem_key state_100 ''list'' = Inr (JArr [rec 100 ''url100''])"
    by code_simp
  have h: "head_ts state_100 = Inr 100"
    by code_simp
  have new: "(100 :: int) < 101"
    by simp
  have pa: "bind (response batch_102) example_loads = Inr batch_102"
    by code_simp
  have a1: "new_ts batch_102 1 = Inr 101" "record_of batch_102 1 = Inr (rec 101 ''url101'')"
    "newtime_of batch_102 1 = Inr (JInt 101)"
    by code_simp+
  have a0: "new_ts batch_102 0 = Inr 102" "record_of batch_102 0 = Inr (rec 102 ''url102'')"
    "newtime_of batch_102 0 = Inr (JInt 102)"
    by code_simp+
  have pb: "bind (response batch_tie) example_loads = Inr batch_tie"
    by code_simp
  have b1: "new_ts batch_tie 1 = Inr 101" "record_of batch_tie 1 = Inr (rec 101 ''b'')"
    "newtime_of batch_tie 1 = Inr (JInt 101)"
    by code_simp+
  have b0: "new_ts batch_tie 0 = Inr 101" "record_of batch_tie 0 = Inr (rec 101 ''a'')"
    "newtime_of batch_tie 0 = Inr (JInt 101)"
    by code_simp+
  have e1: "with_list state_100 (JArr [rec 101 ''url101'', rec 100 ''url100'']) = state_101"
    by code_simp
  have e2: "with_list state_101 (JArr [rec 102 ''url102'', rec 101 ''url101'', rec 100 ''url100''])
              = state_102"
    by code_simp
  have e3: "with_list state_100 (JArr [rec 101 ''b'', rec 100 ''url100'']) = state_tie"
    by code_simp
  from recent_follows_insertion [OF pa f o l h a1 a0 new, of json_dumps]
  have a: "update_py example_loads json_dumps (response batch_102) (on_disk state_100 []) =
     (Inr state_102, on_disk state_102 [InsertedNewTime (JInt 101), InsertedNewTime (JInt 102)]) \<and>
     recent_of state_101 = Inr (JInt 101)"
    by (simp add: Let_def e1 e2 on_disk_def)
  from recent_follows_insertion [OF pb f o l h b1 b0 new, of json_dumps]
  have b: "update_py example_loads json_dumps (response batch_tie) (on_disk state_100 []) =
     (Inr state_tie, on_disk state_tie [InsertedNewTime (JInt 101)]) \<and>
     recent_of state_tie = Inr (JInt 101)"
    by (simp add: Let_def e3 on_disk_def)
  from a b show ?thesis by blast
qed

text \<open>
  Claim C7 (all of a newer batch is inserted), as amended: if the first \<open>k\<close>
  images of the response have strictly descending timestamps (newest first, no two
  equal), each has a url, and the last of them is newer than the stored head, then the
  loop over these \<open>k\<close> images succeeds, inserts all of them in the order of the
  response in front of the stored list, and prints one line for each.
\<close>

theorem strictly_newer_batch_all_inserted:
  assumes "\<forall>i<k. record_of newdata i = Inr (rs i) \<and> new_ts newdata i = Inr (ts i) \<and>
             newtime_of newdata i = Inr (nt i)"
    and "\<forall>i. Suc i < k \<longrightarrow> ts (Suc i) < ts i"
    and "head_ts olddata = Inr h" and "0 < k \<longrightarrow> h < ts (k - 1)"
    and "getitem_key olddata ''list'' = Inr (JArr xs)"
  shows "\<exists>olddata' w'. merge_loop dumps newdata (range_down k) olddata w = (Inr olddata', w') \<and>
           getitem_key olddata' ''list'' = Inr (JArr (map rs [0..<k] @ xs)) \<and>
           stdout w' = stdout w @ map (\<lambda>i. InsertedNewTime (nt i)) (range_down k)"
  using assms by (rule merge_loop_all_new)

theorem strictly_newer_batch_all_inserted_witness:
  "\<exists>olddata' w'.
     merge_loop json_dumps batch_102 (range_down numgrabbed) state_100 (on_disk state_100 []) =
       (Inr olddata', w') \<and>
     getitem_key olddata' ''list'' =
       Inr (JArr ([rec 102 ''url102'', rec 101 ''url101''] @ [rec 100 ''url100''])) \<and>
     stdout w' = [InsertedNewTime (JInt 101), InsertedNewTime (JInt 102)]"
proof -
  let ?rs = "\<lambda>i::nat. if i = 0 then rec 102 ''url102'' else rec 101 ''url101''"
  let ?ts = "\<lambda>i::nat. if i = 0 then 102 else (101 :: int)"
  let ?nt = "\<lambda>i::nat. JInt (if i = 0 then 102 else 101)"
  have r0: "record_of batch_102 0 = Inr (rec 102 ''url102'')" "new_ts batch_102 0 = Inr 102"
    "newtime_of batch_102 0 = Inr (JInt 102)"
    by code_simp+
  have r1: "record_of batch_102 1 = Inr (rec 101 ''url101'')" "new_ts batch_102 1 = Inr 101"
    "newtime_of batch_102 1 = Inr (JInt 101)"
    by code_simp+
  have a: "\<forall>i<numgrabbed. record_of batch_102 i = Inr (?rs i) \<and> new_ts batch_102 i = Inr (?ts i) \<and>
             newtime_of batch_102 i = Inr (?nt i)"
    using r0 r1 by (auto simp: numgrabbed_def less_Suc_eq numeral_2_eq_2)
  have b: "\<forall>i. Suc i < numgrabbed \<longrightarrow> ?ts (Suc i) < ?ts i"
    by (auto simp: numgrabbed_def)
  have c: "head_ts state_100 = Inr 100"
    by code_simp
  have d: "0 < numgrabbed \<longrightarrow> 100 < ?ts (numgrabbed - 1)"
    by (simp add: numgrabbed_def)
  have e: "getitem_key state_100 ''list'' = Inr (JArr [rec 100 ''url100''])"
    by code_simp
  from strictly_newer_batch_all_inserted [OF a b c d e, of json_dumps "on_disk state_100 []"]
  show ?thesis
    by (simp add: numgrabbed_def numeral_2_eq_2 range_down_def on_disk_def)
qed

text \<open>
  As stated, without the condition on the order, claim C7 fails: with the stored head at
  100 and the response \<^verbatim>\<open>[(101, "a"), (101, "b")]\<close>, whose last timestamp is newer than
  the head, only the record \<^verbatim>\<open>(101, "b")\<close> is inserted.
\<close>

theorem tie_in_batch_counterexample:
  "head_ts state_100 = Inr 100 \<and> new_ts batch_tie 1 = Inr 101 \<and> new_ts batch_tie 0 = Inr 101 \<and>
   (100 :: int) < 101 \<and>
   update_py example_loads json_dumps (response batch_tie) (on_disk state_100 []) =
     (Inr (state [rec 101 ''b'', rec 100 ''url100'']),
      on_disk (state [rec 101 ''b'', rec 100 ''url100'']) [InsertedNewTime (JInt 101)])"
  by code_simp

text \<open>
  Claim C8 (missing or empty state). If \<^verbatim>\<open>out.json\<close> does not exist, or the
  list it holds is empty, the run ends with an exception and the world is as before:
  nothing is written and nothing is printed.
\<close>

theorem missing_or_empty_state_fails:
  assumes "out_json w = None \<or>
           (\<exists>content olddata. out_json w = Some content \<and> loads content = Inr olddata \<and>
              getitem_key olddata ''list'' = Inr (JArr []))"
  shows "\<exists>e. update_py loads dumps p w = (Inl e, w)"
proof (cases "bind p loads")
  case (Inl e)
  then show ?thesis by (simp add: update_py_def)
next
  case (Inr newdata)
  from assms show ?thesis
  proof
    assume "out_json w = None"
    with Inr show ?thesis by (simp add: update_py_def)
  next
    assume "\<exists>content olddata. out_json w = Some content \<and> loads content = Inr olddata \<and>
              getitem_key olddata ''list'' = Inr (JArr [])"
    then obtain content olddata where
      c: "out_json w = Some content" and o: "loads content = Inr olddata" and
      l: "getitem_key olddata ''list'' = Inr (JArr [])"
      by blast
    from merge_image_fails [OF head_ts_Nil [OF l], of newdata 1] obtain e where
      "merge_image newdata 1 olddata = Inl e"
      by blast
    then have "merge_loop dumps newdata (range_down numgrabbed) olddata w = (Inl e, w)"
      by (simp add: range_down_numgrabbed)
    with update_py_loop [OF Inr c o, of dumps] show ?thesis by simp
  qed
qed

theorem missing_or_empty_state_fails_witness:
  "(\<exists>e. update_py example_loads json_dumps (response batch_102) \<lparr>out_json = None, stdout = []\<rparr> =
      (Inl e, \<lparr>out_json = None, stdout = []\<rparr>)) \<and>
   (\<exists>e. update_py example_loads json_dumps (response batch_102) (on_disk (state []) []) =
      (Inl e, on_disk (state []) []))"
proof -
  have a: "out_json \<lparr>out_json = None, stdout = []\<rparr> = None \<or>
           (\<exists>content olddata. out_json \<lparr>out_json = None, stdout = []\<rparr> = Some content \<and>
              example_loads content = Inr olddata \<and> getitem_key olddata ''list'' = Inr (JArr []))"
    by simp
  have b1: "out_json (on_disk (state []) []) = Some (json_dumps (state []))"
    by (simp add: on_disk_def)
  have b2: "example_loads (json_dumps (state [])) = Inr (state [])"
    by code_simp
  have b3: "getitem_key (state []) ''list'' = Inr (JArr [])"
    by code_simp
  have b: "out_json (on_disk (state []) []) = None \<or>
           (\<exists>content olddata. out_json (on_disk (state []) []) = Some content \<and>
              example_loads content = Inr olddata \<and> getitem_key olddata ''list'' = Inr (JArr []))"
    using b1 b2 b3 by blast
  from missing_or_empty_state_fails [OF a] missing_or_empty_state_fails [OF b]
  show ?thesis by blast
qed

text \<open>
  Claim C9 (one write is enough), as amended. For every stored list and every response,
  the script, which writes the file in every pass, and the variant that writes once
  after the loop end with the same result (the same value or the same exception) and
  the same printed lines; and whenever the run completes without an exception, they
  leave the same file content as well.
\<close>

theorem single_write_equivalent:
  "fst (update_py loads dumps p w) = fst (update_single_write loads dumps p w) \<and>
   stdout (snd (update_py loads dumps p w)) =
     stdout (snd (update_single_write loads dumps p w)) \<and>
   ((\<exists>olddata'. fst (update_py loads dumps p w) = Inr olddata') \<longrightarrow>
      update_py loads dumps p w = update_single_write loads dumps p w)"
proof (cases "bind p loads")
  case (Inl e)
  then show ?thesis
    by (simp add: update_py_def update_single_write_def)
next
  case p: (Inr newdata)
  show ?thesis
  proof (cases "out_json w")
    case None
    with p show ?thesis
      by (simp add: update_py_def update_single_write_def)
  next
    case f: (Some content)
    show ?thesis
    proof (cases "loads content")
      case (Inl e)
      with p f show ?thesis
        by (simp add: update_py_def update_single_write_def)
    next
      case o: (Inr olddata)
      show ?thesis
      proof (cases "merge_image newdata 1 olddata")
        case (Inl e)
        with p f o show ?thesis
          by (simp add: update_py_def update_single_write_def range_down_numgrabbed)
      next
        case (Inr b1)
        obtain o1 out1 where b1: "b1 = (o1, out1)" by (cases b1)
        show ?thesis
        proof (cases "merge_image newdata 0 o1")
          case (Inl e)
          with Inr b1 p f o show ?thesis
            by (simp add: update_py_def update_single_write_def range_down_numgrabbed)
        next
          case s0: (Inr b0)
          obtain o2 out2 where b0: "b0 = (o2, out2)" by (cases b0)
          with s0 Inr b1 p f o show ?thesis
            by (simp add: update_py_def update_single_write_def range_down_numgrabbed)
        qed
      qed
    qed
  qed
qed

theorem single_write_equivalent_witness:
  "update_py example_loads json_dumps (response batch_102) (on_disk state_100 []) =
   update_single_write example_loads json_dumps (response batch_102) (on_disk state_100 [])"
proof -
  have a: "fst (update_py example_loads json_dumps (response batch_102) (on_disk state_100 [])) =
             Inr state_102"
    by code_simp
  from single_write_equivalent [of example_loads json_dumps "response batch_102"
      "on_disk state_100 []"] a
  show ?thesis by blast
qed

text \<open>
  As stated, for every response, claim C9 fails. When the newest image of the response
  has no \<^verbatim>\<open>imageTimestamp\<close>, the script inserts the older image and writes the file
  in its first pass, then raises KeyError in the second; the variant with one write
  raises the same exception and leaves the file as it was.
\<close>

theorem crash_after_write_counterexample:
  "update_py example_loads json_dumps (response batch_broken) (on_disk state_100 []) =
     (Inl KeyError, on_disk state_101 [InsertedNewTime (JInt 101)]) \<and>
   update_single_write example_loads json_dumps (response batch_broken) (on_disk state_100 []) =
     (Inl KeyError, on_disk state_100 [InsertedNewTime (JInt 101)]) \<and>
   json_dumps state_101 \<noteq> json_dumps state_100"
  by code_simp

text \<open>
  Claim C10 (frame). Whatever the run does, the file is afterwards either
  untouched or holds a document whose list is the stored list with at most
  \<^verbatim>\<open>numgrabbed\<close> records in front of it; after a successful run the file holds the
  final \<^verbatim>\<open>olddata\<close>, whose list is such an extension. No stored record is removed,
  changed or moved.
\<close>

theorem stored_list_is_suffix:
  assumes "out_json w = Some content" and "loads content = Inr olddata"
    and "getitem_key olddata ''list'' = Inr (JArr xs)"
    and "update_py loads dumps p w = (r, w')"
  shows "(w' = w \<or>
          (\<exists>o' ys. out_json w' = Some (dumps o') \<and>
             getitem_key o' ''list'' = Inr (JArr (ys @ xs)) \<and> length ys \<le> numgrabbed)) \<and>
         (\<forall>olddata'. r = Inr olddata' \<longrightarrow>
            out_json w' = Some (dumps olddata') \<and>
            (\<exists>ys. getitem_key olddata' ''list'' = Inr (JArr (ys @ xs)) \<and>
               length ys \<le> numgrabbed))"
proof (cases "bind p loads")
  case (Inl e)
  with assms(4) show ?thesis by (auto simp: update_py_def)
next
  case (Inr newdata)
  from update_py_loop [OF Inr assms(1,2), of dumps] assms(4) have
    l: "merge_loop dumps newdata (range_down numgrabbed) olddata w = (r, w')"
    by simp
  have n: "length (range_down numgrabbed) = numgrabbed"
    by (simp add: range_down_def)
  from merge_loop_disk [OF l assms(3)] n have
    "w' = w \<or>
     (\<exists>o' ys. out_json w' = Some (dumps o') \<and>
        getitem_key o' ''list'' = Inr (JArr (ys @ xs)) \<and> length ys \<le> numgrabbed)"
    by simp
  moreover have "\<forall>olddata'. r = Inr olddata' \<longrightarrow>
            out_json w' = Some (dumps olddata') \<and>
            (\<exists>ys. getitem_key olddata' ''list'' = Inr (JArr (ys @ xs)) \<and>
               length ys \<le> numgrabbed)"
  proof (intro allI impI)
    fix olddata' assume "r = Inr olddata'"
    with l have l': "merge_loop dumps newdata (range_down numgrabbed) olddata w = (Inr olddata', w')"
      by simp
    from merge_loop_written [OF l'] have "out_json w' = Some (dumps olddata')"
      by (simp add: range_down_numgrabbed)
    moreover from merge_loop_prepends [OF l' assms(3)] n have
      "\<exists>ys. getitem_key olddata' ''list'' = Inr (JArr (ys @ xs)) \<and> length ys \<le> numgrabbed"
      by auto
    ultimately show "out_json w' = Some (dumps olddata') \<and>
            (\<exists>ys. getitem_key olddata' ''list'' = Inr (JArr (ys @ xs)) \<and>
               length ys \<le> numgrabbed)"
      by simp
  qed
  ultimately show ?thesis by simp
qed

theorem stored_list_is_suffix_witness:
  "\<exists>ys. getitem_key state_102 ''list'' = Inr (JArr (ys @ [rec 100 ''url100''])) \<and>
     length ys \<le> numgrabbed"
proof -
  have a: "out_json (on_disk state_100 []) = Some (json_dumps state_100)"
    by (simp add: on_disk_def)
  have b: "example_loads (json_dumps state_100) = Inr state_100"
    by code_simp
  have c: "getitem_key state_100 ''list'' = Inr (JArr [rec 100 ''url100''])"
    by code_simp
  have d: "update_py example_loads json_dumps (response batch_102) (on_disk state_100 []) =
     (Inr state_102, on_disk state_102 [InsertedNewTime (JInt 101), InsertedNewTime (JInt 102)])"
    by code_simp
  from stored_list_is_suffix [OF a b c d] show ?thesis by blast
qed

end
